theory Spec2Isabelle
  imports Main "HOL-Library.Sublist"
begin

section \<open>Python values and strings\<close>

text \<open>
  A Python \<open>str\<close> is modelled as a \<open>string\<close>: a list of 8-bit characters, each
  read as the code point of the same number (U+0000 to U+00FF). Everything below is exact
  on such strings; code points above U+00FF are outside the model.

  A Python \<open>dict\<close> with string keys is an association list with distinct keys in
  insertion order: \<open>dict_get\<close> is \<open>d.get(k)\<close>, \<open>dict_set\<close> is \<open>d[k] = v\<close>
  (an existing key keeps its place, a new key goes last).
\<close>

datatype pyval =
    PNone
  | PBool bool
  | PInt int
  | PFloat string
  | PStr string
  | PList "pyval list"
  | PDict "(string \<times> pyval) list"
  | PStrOf pyval

type_synonym pydict = "(string \<times> pyval) list"

definition dict_get :: "pydict \<Rightarrow> string \<Rightarrow> pyval option" where
  "dict_get d k = map_of d k"

fun dict_set :: "pydict \<Rightarrow> string \<Rightarrow> pyval \<Rightarrow> pydict" where
  "dict_set [] k v = [(k, v)]"
| "dict_set ((k', v') # d) k v = (if k' = k then (k, v) # d else (k', v') # dict_set d k v)"

text \<open>\<open>d.get(k, default)\<close>.\<close>

definition dict_get_default :: "pydict \<Rightarrow> string \<Rightarrow> pyval \<Rightarrow> pyval" where
  "dict_get_default d k dflt = (case dict_get d k of None \<Rightarrow> dflt | Some v \<Rightarrow> v)"

text \<open>
  \<open>str.lower()\<close> on code points below U+0100: the ASCII capitals and the Latin-1
  capitals U+00C0 to U+00DE (without the multiplication sign U+00D7) move up by 32.
\<close>

definition lower_char :: "char \<Rightarrow> char" where
  "lower_char c =
     (let n = (of_char c :: nat)
      in if (65 \<le> n \<and> n \<le> 90) \<or> (192 \<le> n \<and> n \<le> 222 \<and> n \<noteq> 215)
         then char_of (n + 32) else c)"

definition py_lower :: "string \<Rightarrow> string" where
  "py_lower s = map lower_char s"

text \<open>\<open>sep.join(xs)\<close>.\<close>

fun py_join :: "string \<Rightarrow> string list \<Rightarrow> string" where
  "py_join sep [] = []"
| "py_join sep [x] = x"
| "py_join sep (x # y # ys) = x @ sep @ py_join sep (y # ys)"

text \<open>
  \<open>str.strip()\<close> removes the characters for which \<open>str.isspace()\<close> holds; below
  U+0100 these are U+0009 to U+000D, U+001C to U+0020, U+0085 and U+00A0. The regular
  expression class \<open>\s\<close> matches the same characters.
\<close>

definition is_space :: "char \<Rightarrow> bool" where
  "is_space c = ((of_char c :: nat) \<in> {9, 10, 11, 12, 13, 28, 29, 30, 31, 32, 133, 160})"

definition py_strip :: "string \<Rightarrow> string" where
  "py_strip s = rev (dropWhile is_space (rev (dropWhile is_space s)))"

text \<open>
  \<open>str(v)\<close> of a decoded value that is not a dict. The text of \<open>None\<close>, a bool,
  an int and a string is computed; the text of a float or of a list is Python's own
  rendering, kept as the symbolic value \<open>PStrOf v\<close>.
\<close>

definition digit_char :: "nat \<Rightarrow> char" where
  "digit_char n = char_of (48 + n)"

fun show_nat :: "nat \<Rightarrow> string" where
  "show_nat n = (if n < 10 then [digit_char n] else show_nat (n div 10) @ [digit_char (n mod 10)])"

definition show_int :: "int \<Rightarrow> string" where
  "show_int i = (if i < 0 then CHR ''-'' # show_nat (nat (- i)) else show_nat (nat i))"

fun py_str :: "pyval \<Rightarrow> pyval" where
  "py_str PNone = PStr ''None''"
| "py_str (PBool b) = PStr (if b then ''True'' else ''False'')"
| "py_str (PInt i) = PStr (show_int i)"
| "py_str (PStr s) = PStr s"
| "py_str v = PStrOf v"

section \<open>JSON decoding (the json.loads the extractor calls)\<close>

text \<open>
  \<open>json.loads\<close> is the Python standard library's decoder, modelled here on the
  strings of this theory: a lexer (\<open>lex\<close>) that reads the tokens as the decoder's
  scanner does, and a push-down reader (\<open>run\<close>) for objects and arrays. White space
  between tokens is space, tab, line feed and carriage return only. A string follows the
  decoder's strict mode (no raw control character, the escapes \<open>" \ / b f n r t u\<close>);
  a \<open>\u\<close> escape above U+00FF leaves the string model and is refused. An integer literal
  becomes \<open>PInt\<close>; a literal with a fraction or an exponent (and \<open>NaN\<close>,
  \<open>Infinity\<close>, \<open>-Infinity\<close>) is kept as \<open>PFloat\<close> of its text, the
  floating-point conversion being outside the model. A repeated key keeps its first place
  and takes the last value, as the decoder's dict does. The interpreter's resource limits
  (recursion depth, digits of an integer) are not modelled: every failure is
  \<open>JSONDecodeError\<close>.
\<close>

definition is_json_ws :: "char \<Rightarrow> bool" where
  "is_json_ws c = (c = CHR '' '' \<or> c = CHR 0x09 \<or> c = CHR 0x0A \<or> c = CHR 0x0D)"

definition is_digit :: "char \<Rightarrow> bool" where
  "is_digit c = (48 \<le> (of_char c :: nat) \<and> (of_char c :: nat) \<le> 57)"

definition digit_val :: "char \<Rightarrow> nat" where
  "digit_val c = of_char c - 48"

definition hex_val :: "char \<Rightarrow> nat option" where
  "hex_val c =
     (let n = (of_char c :: nat)
      in if 48 \<le> n \<and> n \<le> 57 then Some (n - 48)
         else if 97 \<le> n \<and> n \<le> 102 then Some (n - 87)
         else if 65 \<le> n \<and> n \<le> 70 then Some (n - 55)
         else None)"

definition hex4 :: "char \<Rightarrow> char \<Rightarrow> char \<Rightarrow> char \<Rightarrow> nat option" where
  "hex4 a b c d =
     (case (hex_val a, hex_val b, hex_val c, hex_val d) of
        (Some x, Some y, Some z, Some w) \<Rightarrow> Some (((x * 16 + y) * 16 + z) * 16 + w)
      | _ \<Rightarrow> None)"

definition unescape :: "char \<Rightarrow> char option" where
  "unescape e =
     (if e = CHR ''\"'' then Some (CHR ''\"'')
      else if e = CHR 0x5C then Some (CHR 0x5C)
      else if e = CHR ''/'' then Some (CHR ''/'')
      else if e = CHR ''b'' then Some (CHR 0x08)
      else if e = CHR ''f'' then Some (CHR 0x0C)
      else if e = CHR ''n'' then Some (CHR 0x0A)
      else if e = CHR ''r'' then Some (CHR 0x0D)
      else if e = CHR ''t'' then Some (CHR 0x09)
      else None)"

definition push_char :: "char \<Rightarrow> (string \<times> string) option \<Rightarrow> (string \<times> string) option" where
  "push_char ch r = (case r of None \<Rightarrow> None | Some (s, rest) \<Rightarrow> Some (ch # s, rest))"

fun scan_string :: "string \<Rightarrow> (string \<times> string) option" where
  "scan_string [] = None"
| "scan_string (c # cs) =
     (if c = CHR ''\"'' then Some ([], cs)
      else if c = CHR 0x5C then
        (case cs of
           [] \<Rightarrow> None
         | e # r \<Rightarrow>
             if e = CHR ''u'' then
               (case r of
                  h1 # h2 # h3 # h4 # r' \<Rightarrow>
                    (case hex4 h1 h2 h3 h4 of
                       None \<Rightarrow> None
                     | Some n \<Rightarrow> if n < 256 then push_char (char_of n) (scan_string r') else None)
                | _ \<Rightarrow> None)
             else (case unescape e of
                     None \<Rightarrow> None
                   | Some ch \<Rightarrow> push_char ch (scan_string r)))
      else if (of_char c :: nat) < 32 then None
      else push_char c (scan_string cs))"


lemma push_char_Some:
  "push_char ch r = Some (s, rest) \<longleftrightarrow> (\<exists>s'. r = Some (s', rest) \<and> s = ch # s')"
  by (cases r) (auto simp: push_char_def)

lemma scan_string_shorter: "scan_string cs = Some (s, rest) \<Longrightarrow> length rest \<le> length cs"
proof (induction cs arbitrary: s rest rule: scan_string.induct)
  case 1
  then show ?case by simp
next
  case (2 c cs)
  show ?case
  proof (cases "c = CHR ''\"''")
    case True
    with 2(4) show ?thesis by simp
  next
    case q: False
    show ?thesis
    proof (cases "c = CHR 0x5C")
      case False
      with q 2(4) have lt: "\<not> (of_char c :: nat) < 32" and
        "push_char c (scan_string cs) = Some (s, rest)"
        by (auto split: if_splits)
      then obtain s' where "scan_string cs = Some (s', rest)"
        by (auto simp: push_char_Some)
      from 2(3)[OF q False lt this] show ?thesis by simp
    next
      case b: True
      show ?thesis
      proof (cases cs)
        case Nil
        with q b 2(4) show ?thesis by simp
      next
        case (Cons e r)
        show ?thesis
        proof (cases "e = CHR ''u''")
          case False
          with q b Cons 2(4) obtain ch s' where u: "unescape e = Some ch"
            and "scan_string r = Some (s', rest)"
            by (auto simp: push_char_Some split: option.splits)
          from 2(2)[OF q b Cons False u this(2)] Cons show ?thesis by simp
        next
          case u: True
          with q b Cons 2(4) obtain h1 h2 h3 h4 r' n s' where r: "r = h1 # h2 # h3 # h4 # r'"
            and h: "hex4 h1 h2 h3 h4 = Some n" and n: "n < 256"
            and "scan_string r' = Some (s', rest)"
            by (auto simp: push_char_Some split: option.splits list.splits if_splits)
          from 2(1)[OF q b Cons u r refl refl refl h n this(4)] Cons r show ?thesis by simp
        qed
      qed
    qed
  qed
qed

definition scan_int_part :: "string \<Rightarrow> (string \<times> string) option" where
  "scan_int_part s =
     (case s of
        [] \<Rightarrow> None
      | d # rest \<Rightarrow>
          if d = CHR ''0'' then Some ([d], rest)
          else if is_digit d then Some (d # takeWhile is_digit rest, dropWhile is_digit rest)
          else None)"

definition scan_frac :: "string \<Rightarrow> string \<times> string" where
  "scan_frac s =
     (case s of
        p # d # rest \<Rightarrow>
          if p = CHR ''.'' \<and> is_digit d
          then (p # d # takeWhile is_digit rest, dropWhile is_digit rest)
          else ([], s)
      | _ \<Rightarrow> ([], s))"

definition scan_sign :: "string \<Rightarrow> string \<times> string" where
  "scan_sign s =
     (case s of
        c # rest \<Rightarrow> if c = CHR ''+'' \<or> c = CHR ''-'' then ([c], rest) else ([], s)
      | [] \<Rightarrow> ([], s))"

definition scan_exp :: "string \<Rightarrow> string \<times> string" where
  "scan_exp s =
     (case s of
        e # rest \<Rightarrow>
          if e = CHR ''e'' \<or> e = CHR ''E'' then
            (case scan_sign rest of
               (sign, ds) \<Rightarrow>
                 if takeWhile is_digit ds \<noteq> []
                 then (e # sign @ takeWhile is_digit ds, dropWhile is_digit ds)
                 else ([], s))
          else ([], s)
      | [] \<Rightarrow> ([], s))"

definition dec_val :: "string \<Rightarrow> nat" where
  "dec_val ds = foldl (\<lambda>a c. 10 * a + digit_val c) 0 ds"

definition scan_number :: "string \<Rightarrow> (pyval \<times> string) option" where
  "scan_number s =
     (let (neg, s1) = (case s of c # r \<Rightarrow> if c = CHR ''-'' then (True, r) else (False, s)
                               | [] \<Rightarrow> (False, s))
      in case scan_int_part s1 of
           None \<Rightarrow> None
         | Some (ip, s2) \<Rightarrow>
             (case scan_frac s2 of
                (fp, s3) \<Rightarrow>
                  (case scan_exp s3 of
                     (ep, s4) \<Rightarrow>
                       if fp = [] \<and> ep = []
                       then Some (PInt (if neg then - int (dec_val ip) else int (dec_val ip)), s4)
                       else Some (PFloat ((if neg then ''-'' else []) @ ip @ fp @ ep), s4))))"

definition scan_atom :: "string \<Rightarrow> (pyval \<times> string) option" where
  "scan_atom s =
     (if prefix ''null'' s then Some (PNone, drop 4 s)
      else if prefix ''true'' s then Some (PBool True, drop 4 s)
      else if prefix ''false'' s then Some (PBool False, drop 5 s)
      else if prefix ''NaN'' s then Some (PFloat ''NaN'', drop 3 s)
      else if prefix ''Infinity'' s then Some (PFloat ''Infinity'', drop 8 s)
      else if prefix ''-Infinity'' s then Some (PFloat ''-Infinity'', drop 9 s)
      else scan_number s)"

lemma scan_int_part_shorter: "scan_int_part s = Some (ip, r) \<Longrightarrow> length r < length s"
  by (auto simp: scan_int_part_def less_Suc_eq_le length_dropWhile_le split: list.splits if_splits)

lemma scan_frac_shorter: "scan_frac s = (fp, r) \<Longrightarrow> length r \<le> length s"
  by (auto simp: scan_frac_def le_SucI length_dropWhile_le split: list.splits if_splits)

lemma scan_exp_shorter:
  assumes "scan_exp s = (ep, r)"
  shows "length r \<le> length s"
proof (cases s)
  case Nil
  with assms show ?thesis by (simp add: scan_exp_def)
next
  case (Cons e rest)
  obtain sign ds where sg: "scan_sign rest = (sign, ds)" by (cases "scan_sign rest")
  then have "length ds \<le> length rest"
    by (cases rest) (auto simp: scan_sign_def split: if_splits)
  moreover have "length (dropWhile is_digit ds) \<le> length ds"
    by (rule length_dropWhile_le)
  moreover have "r = s \<or> r = dropWhile is_digit ds"
    using assms unfolding scan_exp_def Cons list.case sg prod.case
    by (simp split: if_splits)
  ultimately show ?thesis
    using Cons by auto
qed

lemma scan_number_shorter:
  assumes a: "scan_number s = Some (v, r)"
  shows "length r < length s"
proof -
  obtain neg s1 where s1: "(case s of c # r \<Rightarrow> if c = CHR ''-'' then (True, r) else (False, s)
                               | [] \<Rightarrow> (False, s)) = (neg, s1)"
    by (cases "(case s of c # r \<Rightarrow> if c = CHR ''-'' then (True, r) else (False, s)
                               | [] \<Rightarrow> (False, s))")
  then have l1: "length s1 \<le> length s" by (auto split: list.splits if_splits)
  from a s1 obtain ip s2 where ip: "scan_int_part s1 = Some (ip, s2)"
    by (auto simp: scan_number_def split: option.splits)
  obtain fp s3 where fp: "scan_frac s2 = (fp, s3)" by (cases "scan_frac s2")
  obtain ep s4 where ep: "scan_exp s3 = (ep, s4)" by (cases "scan_exp s3")
  from a have "r = s4"
    unfolding scan_number_def s1 Let_def prod.case ip option.case fp ep
    by (simp split: if_splits)
  with scan_int_part_shorter[OF ip] scan_frac_shorter[OF fp] scan_exp_shorter[OF ep] l1 show ?thesis by simp
qed

lemma drop_pos_shorter: "0 < n \<Longrightarrow> length (drop n (c # cs)) < Suc (length cs)"
  by (cases n) simp_all

lemma scan_atom_shorter:
  assumes "scan_atom (c # cs) = Some (v, rest)"
  shows "length rest < Suc (length cs)"
proof (cases "scan_atom (c # cs) = scan_number (c # cs)")
  case True
  with assms scan_number_shorter [of "c # cs" v rest] show ?thesis by simp
next
  case False
  have "rest = drop 4 (c # cs) \<or> rest = drop 5 (c # cs) \<or> rest = drop 3 (c # cs)
      \<or> rest = drop 8 (c # cs) \<or> rest = drop 9 (c # cs)"
    using assms False unfolding scan_atom_def
    by (simp only: split: if_splits) auto
  then show ?thesis
    using drop_pos_shorter [of _ c cs] by (metis zero_less_numeral)
qed

datatype token =
    T_lbrace | T_rbrace | T_lbracket | T_rbracket | T_colon | T_comma
  | T_string string
  | T_atom pyval

definition cons_token :: "token \<Rightarrow> token list option \<Rightarrow> token list option" where
  "cons_token t r = map_option ((#) t) r"

function lex :: "string \<Rightarrow> token list option" where
  "lex [] = Some []"
| "lex (c # cs) =
     (if is_json_ws c then lex cs
      else if c = CHR ''{'' then cons_token T_lbrace (lex cs)
      else if c = CHR ''}'' then cons_token T_rbrace (lex cs)
      else if c = CHR ''['' then cons_token T_lbracket (lex cs)
      else if c = CHR '']'' then cons_token T_rbracket (lex cs)
      else if c = CHR '':'' then cons_token T_colon (lex cs)
      else if c = CHR '','' then cons_token T_comma (lex cs)
      else if c = CHR ''\"'' then
        (case scan_string cs of
           None \<Rightarrow> None
         | Some (s, rest) \<Rightarrow> cons_token (T_string s) (lex rest))
      else
        (case scan_atom (c # cs) of
           None \<Rightarrow> None
         | Some (v, rest) \<Rightarrow> cons_token (T_atom v) (lex rest)))"
  by pat_completeness auto
termination
  by (relation "measure length") (auto dest: scan_string_shorter scan_atom_shorter simp: less_Suc_eq_le)

datatype frame = F_array "pyval list" | F_object pydict | F_member pydict string

datatype mode = M_value | M_first_elem | M_first_key | M_key | M_colon | M_next | M_done pyval

fun deliver :: "pyval \<Rightarrow> frame list \<Rightarrow> (mode \<times> frame list) option" where
  "deliver v [] = Some (M_done v, [])"
| "deliver v (F_array es # st) = Some (M_next, F_array (es @ [v]) # st)"
| "deliver v (F_member d k # st) = Some (M_next, F_object (dict_set d k v) # st)"
| "deliver v (F_object d # st) = None"

fun start_value :: "token \<Rightarrow> frame list \<Rightarrow> (mode \<times> frame list) option" where
  "start_value (T_atom v) st = deliver v st"
| "start_value (T_string s) st = deliver (PStr s) st"
| "start_value T_lbracket st = Some (M_first_elem, F_array [] # st)"
| "start_value T_lbrace st = Some (M_first_key, F_object [] # st)"
| "start_value _ st = None"

fun step :: "mode \<Rightarrow> frame list \<Rightarrow> token \<Rightarrow> (mode \<times> frame list) option" where
  "step M_value st t = start_value t st"
| "step M_first_elem (F_array es # st) t =
     (if t = T_rbracket then deliver (PList es) st else start_value t (F_array es # st))"
| "step M_first_key (F_object d # st) t =
     (case t of
        T_rbrace \<Rightarrow> deliver (PDict d) st
      | T_string k \<Rightarrow> Some (M_colon, F_member d k # st)
      | _ \<Rightarrow> None)"
| "step M_key (F_object d # st) t =
     (case t of T_string k \<Rightarrow> Some (M_colon, F_member d k # st) | _ \<Rightarrow> None)"
| "step M_colon st t = (if t = T_colon then Some (M_value, st) else None)"
| "step M_next (F_array es # st) t =
     (case t of
        T_comma \<Rightarrow> Some (M_value, F_array es # st)
      | T_rbracket \<Rightarrow> deliver (PList es) st
      | _ \<Rightarrow> None)"
| "step M_next (F_object d # st) t =
     (case t of
        T_comma \<Rightarrow> Some (M_key, F_object d # st)
      | T_rbrace \<Rightarrow> deliver (PDict d) st
      | _ \<Rightarrow> None)"
| "step _ _ _ = None"

fun run :: "mode \<Rightarrow> frame list \<Rightarrow> token list \<Rightarrow> pyval option" where
  "run m st [] = (case m of M_done v \<Rightarrow> Some v | _ \<Rightarrow> None)"
| "run m st (t # ts) =
     (case step m st t of
        None \<Rightarrow> None
      | Some (m', st') \<Rightarrow> run m' st' ts)"

datatype json_error = JSONDecodeError

definition json_loads :: "string \<Rightarrow> json_error + pyval" where
  "json_loads s =
     (case lex s of
        None \<Rightarrow> Inl JSONDecodeError
      | Some ts \<Rightarrow>
          (case run M_value [] ts of
             None \<Rightarrow> Inl JSONDecodeError
           | Some v \<Rightarrow> Inr v))"

section \<open>JSON serialization (json.dumps of a flat record of strings)\<close>









section \<open>Response extraction (GeminiPDFAnalyzer._parse_json_response)\<close>

text \<open>
  \<open>fence_match s\<close> is \<open>re.match(r'^```(?:json)?\s*\n(.*?)\n```$', s, re.DOTALL)\<close>,
  giving group 1 of the match. After the opening fence and the optional tag, the end of
  the match is fixed by \<open>$\<close> (the end of the string, or just before a last line feed),
  so the body is what stands before the closing line feed and fence; the greedy
  \<open>\s*\<close> followed by \<open>\n\<close> takes the white space at the start of the body up to
  and including its last line feed, and group 1 is the rest of the body.
\<close>

definition after_last_newline :: "string \<Rightarrow> string" where
  "after_last_newline w = rev (takeWhile (\<lambda>c. c \<noteq> CHR 0x0A) (rev w))"

definition fence_body :: "string \<Rightarrow> string option" where
  "fence_body r =
     (if suffix ''\<newline>```\<newline>'' r then Some (take (length r - 5) r)
      else if suffix ''\<newline>```'' r then Some (take (length r - 4) r)
      else None)"

definition fence_match :: "string \<Rightarrow> string option" where
  "fence_match s =
     (if \<not> prefix ''```'' s then None
      else
        let r1 = drop 3 s;
            r2 = (if prefix ''json'' r1 then drop 4 r1 else r1)
        in case fence_body r2 of
             None \<Rightarrow> None
           | Some body \<Rightarrow>
               let w = takeWhile is_space body
               in if CHR 0x0A \<in> set w
                  then Some (after_last_newline w @ dropWhile is_space body)
                  else None)"

text \<open>
  The first half of the function: strip, then keep the inside of a fence when the stripped
  text is one.
\<close>

definition clean_response :: "string \<Rightarrow> string" where
  "clean_response response_text =
     (let cleaned_text = py_strip response_text
      in case fence_match cleaned_text of
           Some group1 \<Rightarrow> py_strip group1
         | None \<Rightarrow> cleaned_text)"

definition parse_json_response :: "string \<Rightarrow> pydict" where
  "parse_json_response response_text =
     (case json_loads (clean_response response_text) of
        Inr result \<Rightarrow>
          (case result of
             PDict d \<Rightarrow> d
           | _ \<Rightarrow> [(''Raw Response'', py_str result)])
      | Inl JSONDecodeError \<Rightarrow> [(''Raw Response'', PStr response_text)])"

section \<open>Credential validation (gemini_client.validate_api_key)\<close>

text \<open>
  The argument is \<open>os.environ.get("GEMINI_API_KEY")\<close>: \<open>None\<close> when the variable is
  unset. \<open>not api_key\<close> holds for \<open>None\<close> and for the empty string.
\<close>

definition validate_api_key :: "string option \<Rightarrow> bool \<times> string option" where
  "validate_api_key api_key =
     (case api_key of
        None \<Rightarrow> (False, None)
      | Some k \<Rightarrow> if k = [] then (False, None) else (True, Some k))"

section \<open>Prompt construction (prompt_builder.build_analysis_prompt)\<close>

definition output_columns :: "string list \<Rightarrow> string list" where
  "output_columns column_names =
     filter (\<lambda>col. py_lower col \<noteq> ''document name'') column_names"

definition quoted :: "string \<Rightarrow> string" where
  "quoted col = ''\"'' @ col @ ''\"''"

definition column_list :: "string list \<Rightarrow> string" where
  "column_list cols = py_join '', '' (map quoted cols)"

definition instruction_head :: string where
  "instruction_head =
     ''\<newline>\<newline>Based on your analysis, return your findings as a JSON object with exactly these keys: ''"

definition instruction_tail :: string where
  "instruction_tail =
     ''\<newline>\<newline>Each value should be a string. If information for a field is not found, use \"N/A\".''
     @ ''\<newline>\<newline>Return ONLY the JSON object, no additional text or markdown formatting.''"

definition structured_instruction :: "string list \<Rightarrow> string" where
  "structured_instruction cols = instruction_head @ column_list cols @ instruction_tail"

definition build_analysis_prompt :: "string \<Rightarrow> string list \<Rightarrow> string" where
  "build_analysis_prompt user_prompt column_names =
     (if output_columns column_names = [] then user_prompt
      else user_prompt @ structured_instruction (output_columns column_names))"

text \<open>
  The application's own view of the declared non-identity fields (app.py, before a run
  is started): the column list without the exact name \<open>Document Name\<close>.
\<close>

definition custom_columns :: "string list \<Rightarrow> string list" where
  "custom_columns columns = filter (\<lambda>col. col \<noteq> ''Document Name'') columns"

section \<open>The analysis pipeline (GeminiPDFAnalyzer.analyze_pdf)\<close>

text \<open>
  The remote service and the file system are outside the program. One run of the
  pipeline is modelled against an \<open>env\<close> that fixes what each external call
  does for that document (whether staging and upload succeed, what each generation
  attempt returns, whether the two cleanup calls raise), and a \<open>world\<close> that holds the
  temporary files and uploaded files that exist, with the log of external calls in
  order. An exception is modelled by its message, which is all the program reads
  of it. \<open>time.sleep\<close> is logged, not waited for: \<open>Sleep n\<close> is the back-off of
  \<open>n\<close> seconds, \<open>Pace\<close> the delay \<open>api_delay\<close> after a success.
\<close>

type_synonym path = string
type_synonym handle = string

datatype exn = Exception string

fun str_of_exn :: "exn \<Rightarrow> string" where
  "str_of_exn (Exception msg) = msg"

datatype response =
    Response_text string
  | Response_parts "string option list"
  | Response_other

datatype temp_result =
    Temp_written path
  | Temp_not_created exn
  | Temp_write_failed path exn

record env =
  write_temp :: temp_result
  upload :: "exn + handle"
  generate :: "int \<Rightarrow> exn + response"
  delete_ok :: bool
  remove_ok :: bool

datatype call =
    Write_temp
  | Upload path
  | Generate handle string
  | Sleep int
  | Pace
  | Delete handle
  | Remove path

record world =
  local_files :: "path list"
  remote_files :: "handle list"
  calls :: "call list"

definition log_call :: "call \<Rightarrow> world \<Rightarrow> world" where
  "log_call c w = w\<lparr>calls := calls w @ [c]\<rparr>"

definition log_calls :: "call list \<Rightarrow> world \<Rightarrow> world" where
  "log_calls cs w = w\<lparr>calls := calls w @ cs\<rparr>"

definition write_temp_pdf :: "env \<Rightarrow> world \<Rightarrow> (exn + path) \<times> world" where
  "write_temp_pdf e w =
     (let w1 = log_call Write_temp w
      in case write_temp e of
           Temp_written p \<Rightarrow> (Inr p, w1\<lparr>local_files := p # local_files w1\<rparr>)
         | Temp_not_created x \<Rightarrow> (Inl x, w1)
         | Temp_write_failed p x \<Rightarrow> (Inl x, w1\<lparr>local_files := p # local_files w1\<rparr>))"

definition upload_file :: "env \<Rightarrow> path \<Rightarrow> world \<Rightarrow> (exn + handle) \<times> world" where
  "upload_file e file_path w =
     (let w1 = log_call (Upload file_path) w
      in case upload e of
           Inl x \<Rightarrow> (Inl x, w1)
         | Inr h \<Rightarrow> (Inr h, w1\<lparr>remote_files := h # remote_files w1\<rparr>))"

definition part_text :: "string option \<Rightarrow> string" where
  "part_text p = (case p of Some t \<Rightarrow> t | None \<Rightarrow> [])"

definition extract_text :: "exn + response \<Rightarrow> exn + string" where
  "extract_text r =
     (case r of
        Inl x \<Rightarrow> Inl x
      | Inr (Response_text t) \<Rightarrow> Inr t
      | Inr (Response_parts ps) \<Rightarrow> Inr (concat (map part_text ps))
      | Inr Response_other \<Rightarrow> Inl (Exception ''Unexpected response format from Gemini''))"

fun retry_loop ::
  "env \<Rightarrow> int \<Rightarrow> handle \<Rightarrow> string \<Rightarrow> int list \<Rightarrow> world \<Rightarrow> (exn + string option) \<times> world" where
  "retry_loop e max_retries uploaded_file prompt [] w = (Inr None, w)"
| "retry_loop e max_retries uploaded_file prompt (attempt # rest) w =
     (let w1 = log_call (Generate uploaded_file prompt) w
      in case extract_text (generate e attempt) of
           Inr t \<Rightarrow> (Inr (Some t), w1)
         | Inl last_exception \<Rightarrow>
             if attempt < max_retries
             then retry_loop e max_retries uploaded_file prompt rest
                    (log_call (Sleep ((attempt + 1) * 2)) w1)
             else (Inl last_exception, w1))"

definition generate_content_with_retry ::
  "env \<Rightarrow> int \<Rightarrow> handle \<Rightarrow> string \<Rightarrow> world \<Rightarrow> (exn + string option) \<times> world" where
  "generate_content_with_retry e max_retries uploaded_file prompt w =
     retry_loop e max_retries uploaded_file prompt [0..max_retries] w"

type_synonym outcome = "bool \<times> pydict \<times> string option"

definition failure :: "string \<Rightarrow> exn \<Rightarrow> outcome" where
  "failure filename x = (False, [], Some (''Error analyzing '' @ filename @ '': '' @ str_of_exn x))"

definition delete_remote :: "env \<Rightarrow> handle \<Rightarrow> world \<Rightarrow> world" where
  "delete_remote e h w =
     (let w1 = log_call (Delete h) w
      in if delete_ok e then w1\<lparr>remote_files := remove1 h (remote_files w1)\<rparr> else w1)"

definition remove_local :: "env \<Rightarrow> path \<Rightarrow> world \<Rightarrow> world" where
  "remove_local e p w =
     (let w1 = log_call (Remove p) w
      in if remove_ok e then w1\<lparr>local_files := remove1 p (local_files w1)\<rparr> else w1)"

definition cleanup :: "env \<Rightarrow> handle option \<Rightarrow> path option \<Rightarrow> world \<Rightarrow> world" where
  "cleanup e uploaded_file temp_file_path w =
     (let w1 = (case uploaded_file of None \<Rightarrow> w | Some h \<Rightarrow> delete_remote e h w)
      in case temp_file_path of
           None \<Rightarrow> w1
         | Some p \<Rightarrow> if p \<in> set (local_files w1) then remove_local e p w1 else w1)"

definition none_has_no_strip :: exn where
  "none_has_no_strip =
     Exception ([CHR 0x27] @ ''NoneType'' @ [CHR 0x27] @ '' object has no attribute ''
                @ [CHR 0x27] @ ''strip'' @ [CHR 0x27])"

definition analyze_pdf :: "env \<Rightarrow> int \<Rightarrow> string \<Rightarrow> string \<Rightarrow> world \<Rightarrow> outcome \<times> world" where
  "analyze_pdf e max_retries filename prompt w =
     (case write_temp_pdf e w of
        (Inl x, w1) \<Rightarrow> (failure filename x, cleanup e None None w1)
      | (Inr temp_file_path, w1) \<Rightarrow>
          (case upload_file e temp_file_path w1 of
             (Inl x, w2) \<Rightarrow> (failure filename x, cleanup e None (Some temp_file_path) w2)
           | (Inr uploaded_file, w2) \<Rightarrow>
               (case generate_content_with_retry e max_retries uploaded_file prompt w2 of
                  (Inl x, w3) \<Rightarrow>
                    (failure filename x, cleanup e (Some uploaded_file) (Some temp_file_path) w3)
                | (Inr None, w3) \<Rightarrow>
                    (failure filename none_has_no_strip,
                     cleanup e (Some uploaded_file) (Some temp_file_path) w3)
                | (Inr (Some response_text), w3) \<Rightarrow>
                    ((True, parse_json_response response_text, None),
                     cleanup e (Some uploaded_file) (Some temp_file_path) (log_call Pace w3)))))"

section \<open>The batch run (app.analyze_pdfs) and the export rows (excel_export.format_results_for_export)\<close>

text \<open>
  The session state of the application is a record; the progress and status widgets are
  left out. \<open>envs idx\<close> is the environment the document at position \<open>idx\<close> meets.
\<close>

datatype icon = Check_mark | Cross_mark

record session =
  results :: "pydict list"
  filenames :: "string list"
  processing_status :: "(icon \<times> string option) list"

type_synonym pdf_file = "path option \<times> string \<times> string"

definition optional_str :: "string option \<Rightarrow> pyval" where
  "optional_str m = (case m of None \<Rightarrow> PNone | Some t \<Rightarrow> PStr t)"

definition stored_result :: "outcome \<Rightarrow> pydict" where
  "stored_result out =
     (case out of (success, result_dict, error_msg) \<Rightarrow>
        if success then result_dict else [(''Error'', optional_str error_msg)])"

definition stored_status :: "outcome \<Rightarrow> icon \<times> string option" where
  "stored_status out =
     (case out of (success, result_dict, error_msg) \<Rightarrow>
        if success then (Check_mark, Some ''Success'') else (Cross_mark, error_msg))"

definition store_outcome :: "string \<Rightarrow> outcome \<Rightarrow> session \<Rightarrow> session" where
  "store_outcome filename out s =
     s\<lparr>filenames := filenames s @ [filename],
       results := results s @ [stored_result out],
       processing_status := processing_status s @ [stored_status out]\<rparr>"

fun analyze_loop ::
  "(nat \<Rightarrow> env) \<Rightarrow> int \<Rightarrow> string \<Rightarrow> nat \<Rightarrow> pdf_file list \<Rightarrow> session \<times> world \<Rightarrow> session \<times> world" where
  "analyze_loop envs max_retries full_prompt idx [] sw = sw"
| "analyze_loop envs max_retries full_prompt idx ((file_path, filename, pdf_bytes) # rest) (s, w) =
     (case analyze_pdf (envs idx) max_retries filename full_prompt w of
        (out, w') \<Rightarrow>
          analyze_loop envs max_retries full_prompt (Suc idx) rest (store_outcome filename out s, w'))"

definition add_column :: "pydict \<Rightarrow> string \<Rightarrow> pydict \<Rightarrow> pydict" where
  "add_column result_dict col_name formatted_row =
     (if col_name \<noteq> ''Document Name''
      then dict_set formatted_row col_name (dict_get_default result_dict col_name (PStr []))
      else formatted_row)"

definition format_row :: "string \<Rightarrow> pydict \<Rightarrow> string list \<Rightarrow> pydict" where
  "format_row filename result_dict column_names =
     fold (add_column result_dict) column_names [(''Document Name'', PStr filename)]"

definition format_results_for_export :: "pydict list \<Rightarrow> string list \<Rightarrow> string list \<Rightarrow> pydict list" where
  "format_results_for_export rs fns column_names =
     map (\<lambda>(filename, result_dict). format_row filename result_dict column_names) (zip fns rs)"

definition analyze_pdfs ::
  "(nat \<Rightarrow> env) \<Rightarrow> int \<Rightarrow> pdf_file list \<Rightarrow> string \<Rightarrow> string list \<Rightarrow> world \<Rightarrow> session \<times> world" where
  "analyze_pdfs envs max_retries pdf_files prompt_text column_names w =
     (let full_prompt = build_analysis_prompt prompt_text column_names
      in analyze_loop envs max_retries full_prompt 0 pdf_files
           (\<lparr>results = [], filenames = [], processing_status = []\<rparr>, w))"

section \<open>Example environments and release calls\<close>

text \<open>
  Two environments for the examples: in \<open>env_503\<close> generation fails on attempts 0 and 1
  and then answers; in \<open>env_down\<close> attempt \<open>i\<close> always fails, with a message that
  names \<open>i\<close>.
\<close>

definition env_503 :: env where
  "env_503 = \<lparr>write_temp = Temp_written ''/tmp/t1.pdf'', upload = Inr ''files/abc'',
      generate = (\<lambda>i. if i < 2 then Inl (Exception ''503'') else Inr (Response_text ''{}'')),
      delete_ok = True, remove_ok = True\<rparr>"

definition env_down :: env where
  "env_down = \<lparr>write_temp = Temp_written ''/tmp/t1.pdf'', upload = Inr ''files/abc'',
      generate = (\<lambda>i. Inl (Exception (''down '' @ show_int i))),
      delete_ok = True, remove_ok = True\<rparr>"

text \<open>
  A release call is a call of the remote deletion or of the local removal. Further
  environments for the examples: the upload is refused (\<open>env_denied\<close>); every answer has
  neither a text nor parts (\<open>env_malformed\<close>).
\<close>

definition is_release :: "call \<Rightarrow> bool" where
  "is_release c = (case c of Delete h \<Rightarrow> True | Remove p \<Rightarrow> True | _ \<Rightarrow> False)"

definition env_denied :: env where
  "env_denied = \<lparr>write_temp = Temp_written ''/tmp/t1.pdf'', upload = Inl (Exception ''denied''),
      generate = (\<lambda>i. Inr (Response_text ''{}'')),
      delete_ok = True, remove_ok = True\<rparr>"

definition env_malformed :: env where
  "env_malformed = \<lparr>write_temp = Temp_written ''/tmp/t1.pdf'', upload = Inr ''files/abc'',
      generate = (\<lambda>i. Inr Response_other),
      delete_ok = True, remove_ok = True\<rparr>"

definition world0 :: world where
  "world0 = \<lparr>local_files = [], remote_files = [], calls = []\<rparr>"

text \<open>An environment in which the service answers at once with a JSON object.\<close>

definition env_ok :: env where
  "env_ok = \<lparr>write_temp = Temp_written ''/tmp/t2.pdf'', upload = Inr ''files/def'',
      generate = (\<lambda>i. Inr (Response_text ''{\"Summary\": \"ok\"}'')),
      delete_ok = True, remove_ok = True\<rparr>"

section \<open>Credential validation: results\<close>

text \<open>
  C10. An unset variable and the empty string both give \<open>(False, None)\<close>; every
  non-empty value gives \<open>(True, key)\<close> with the key as it was read.
\<close>

theorem validate_api_key_cases:
  "validate_api_key None = (False, None)
   \<and> validate_api_key (Some []) = (False, None)
   \<and> (k \<noteq> [] \<longrightarrow> validate_api_key (Some k) = (True, Some k))"
  by (simp add: validate_api_key_def)

theorem validate_api_key_cases_witness:
  "validate_api_key None = (False, None)
   \<and> validate_api_key (Some '''') = (False, None)
   \<and> ''AIza-key'' \<noteq> []
   \<and> validate_api_key (Some ''AIza-key'') = (True, Some ''AIza-key'')"
  using validate_api_key_cases [of "''AIza-key''"] by simp

section \<open>Prompt construction: results\<close>

lemma py_join_Cons:
  "py_join sep (x # xs) = (if xs = [] then x else x @ sep @ py_join sep xs)"
  by (cases xs) simp_all

lemma sublist_embed: "sublist xs ys \<Longrightarrow> sublist xs (a @ ys @ b)"
proof -
  assume "sublist xs ys"
  then obtain ps ss where "ys = ps @ xs @ ss" by (auto simp: sublist_def)
  then have "a @ ys @ b = (a @ ps) @ xs @ (ss @ b)" by simp
  then show ?thesis unfolding sublist_def by blast
qed

lemma sublist_quoted_column_list:
  "c \<in> set cols \<Longrightarrow> sublist (quoted c) (column_list cols)"
proof (induction cols)
  case Nil
  then show ?case by simp
next
  case (Cons x xs)
  show ?case
  proof (cases "c = x")
    case True
    then show ?thesis
      by (simp add: column_list_def py_join_Cons sublist_append_rightI)
  next
    case False
    with Cons have "sublist (quoted c) (column_list xs)" by simp
    moreover from False Cons.prems have "xs \<noteq> []" by auto
    ultimately show ?thesis
      using sublist_embed [of "quoted c" "column_list xs" "quoted x @ '', ''" "[]"]
      by (simp add: column_list_def py_join_Cons)
  qed
qed

text \<open>
  C8, as the code has it. The keys requested from the service are \<open>output_columns\<close>:
  the field list without every name that \<open>lower()\<close> turns into \<open>document name\<close>.
  When that list is empty the prompt is the user's instruction unchanged; otherwise the
  prompt is the instruction followed by the fixed text around the key list, every
  requested key stands in it verbatim between double quotes, and no name that lower-cases
  to \<open>document name\<close> (the identity field among them) is a requested key.
\<close>

theorem build_analysis_prompt_requested_keys:
  "(output_columns cols = [] \<longrightarrow> build_analysis_prompt p cols = p)
   \<and> (output_columns cols \<noteq> [] \<longrightarrow>
        build_analysis_prompt p cols
          = p @ instruction_head @ column_list (output_columns cols) @ instruction_tail
        \<and> (\<forall>c \<in> set (output_columns cols). sublist (quoted c) (build_analysis_prompt p cols))
        \<and> (\<forall>c \<in> set cols. py_lower c = ''document name'' \<longrightarrow> c \<notin> set (output_columns cols)))"
proof -
  have "sublist (quoted c) (p @ structured_instruction (output_columns cols))"
    if "c \<in> set (output_columns cols)" for c
    using sublist_embed [OF sublist_quoted_column_list [OF that], of "p @ instruction_head" instruction_tail]
    by (simp add: structured_instruction_def)
  then show ?thesis
    by (auto simp: build_analysis_prompt_def structured_instruction_def output_columns_def)
qed

theorem build_analysis_prompt_requested_keys_witness:
  "output_columns [''Document Name''] = []
   \<and> build_analysis_prompt ''Summarise.'' [''Document Name''] = ''Summarise.''
   \<and> output_columns [''Document Name'', ''Summary'', ''Parties''] = [''Summary'', ''Parties'']
   \<and> build_analysis_prompt ''Summarise.'' [''Document Name'', ''Summary'', ''Parties'']
       = ''Summarise.'' @ instruction_head @ ''\"Summary\", \"Parties\"'' @ instruction_tail
   \<and> sublist ''\"Summary\"'' (build_analysis_prompt ''Summarise.'' [''Document Name'', ''Summary'', ''Parties''])
   \<and> sublist ''\"Parties\"'' (build_analysis_prompt ''Summarise.'' [''Document Name'', ''Summary'', ''Parties''])
   \<and> ''Document Name'' \<notin> set (output_columns [''Document Name'', ''Summary'', ''Parties''])"
proof -
  let ?cols = "[''Document Name'', ''Summary'', ''Parties'']"
  have oc1: "output_columns [''Document Name''] = []"
    by code_simp
  have oc2: "output_columns ?cols = [''Summary'', ''Parties'']"
    by code_simp
  note a = build_analysis_prompt_requested_keys [of "[''Document Name'']" "''Summarise.''"]
  note b = build_analysis_prompt_requested_keys [of ?cols "''Summarise.''"]
  have 1: "build_analysis_prompt ''Summarise.'' [''Document Name''] = ''Summarise.''"
    using a oc1 by simp
  have 2: "build_analysis_prompt ''Summarise.'' ?cols
       = ''Summarise.'' @ instruction_head @ ''\"Summary\", \"Parties\"'' @ instruction_tail"
    using b oc2 by (simp add: column_list_def quoted_def)
  have ne: "output_columns ?cols \<noteq> []"
    using oc2 by simp
  have mem: "''Summary'' \<in> set (output_columns ?cols)" "''Parties'' \<in> set (output_columns ?cols)"
    using oc2 by simp_all
  have 3: "sublist (quoted ''Summary'') (build_analysis_prompt ''Summarise.'' ?cols)"
    using b ne mem(1) by blast
  have 4: "sublist (quoted ''Parties'') (build_analysis_prompt ''Summarise.'' ?cols)"
    using b ne mem(2) by blast
  have 5: "''Document Name'' \<notin> set (output_columns ?cols)"
    using oc2 by simp
  from 3 4 have 34: "sublist ''\"Summary\"'' (build_analysis_prompt ''Summarise.'' ?cols)"
      "sublist ''\"Parties\"'' (build_analysis_prompt ''Summarise.'' ?cols)"
    by (simp_all add: quoted_def)
  from oc1 1 oc2 2 34 5 show ?thesis by blast
qed

text \<open>
  C8, as the claim words it, fails. The field list minus the reserved identity field
  \<open>Document Name\<close> (what the application itself computes as \<open>custom_columns\<close>) can
  be non-empty while the prompt is the bare instruction and does not contain the
  remaining field name.
\<close>

theorem build_analysis_prompt_exact_name_counterexample:
  "custom_columns [''Document Name'', ''DOCUMENT NAME''] = [''DOCUMENT NAME'']
   \<and> build_analysis_prompt ''x'' [''Document Name'', ''DOCUMENT NAME''] = ''x''
   \<and> \<not> sublist ''DOCUMENT NAME'' (build_analysis_prompt ''x'' [''Document Name'', ''DOCUMENT NAME''])"
  by code_simp


text \<open>
  C9. A column whose name lower-cases to \<open>document name\<close> is never among the requested
  keys, whatever its position and spelling; the prompt is the one built from the field
  list without that column.
\<close>

theorem identity_exclusion_case_insensitive:
  "py_lower col = ''document name'' \<Longrightarrow>
     col \<notin> set (output_columns cols)
     \<and> output_columns (removeAll col cols) = output_columns cols
     \<and> build_analysis_prompt p (removeAll col cols) = build_analysis_prompt p cols"
proof -
  assume l: "py_lower col = ''document name''"
  have "output_columns (removeAll col cols) = output_columns cols"
    using l by (induction cols) (auto simp: output_columns_def)
  then show ?thesis
    using l by (simp add: build_analysis_prompt_def) (simp add: output_columns_def)
qed

theorem identity_exclusion_case_insensitive_witness:
  "py_lower ''DOCUMENT NAME'' = ''document name''
   \<and> ''DOCUMENT NAME'' \<notin> set (output_columns [''Document Name'', ''DOCUMENT NAME'', ''Summary''])
   \<and> output_columns [''Document Name'', ''DOCUMENT NAME'', ''Summary''] = output_columns [''Document Name'', ''Summary'']
   \<and> build_analysis_prompt ''p'' [''Document Name'', ''DOCUMENT NAME'', ''Summary'']
        = build_analysis_prompt ''p'' [''Document Name'', ''Summary'']"
proof -
  have l: "py_lower ''DOCUMENT NAME'' = ''document name''" by code_simp
  show ?thesis
    using identity_exclusion_case_insensitive [OF l, of "[''Document Name'', ''DOCUMENT NAME'', ''Summary'']" "''p''"] l
    by simp
qed

section \<open>Export rows: results\<close>

lemma dict_get_dict_set:
  "dict_get (dict_set d k v) k' = (if k' = k then Some v else dict_get d k')"
  by (induction d) (auto simp: dict_get_def)

lemma dict_get_fold_export:
  "dict_get (fold (add_column d) cols row) c =
     (if c \<in> set cols \<and> c \<noteq> ''Document Name''
      then Some (dict_get_default d c (PStr []))
      else dict_get row c)"
  by (induction cols arbitrary: row) (auto simp: add_column_def dict_get_dict_set)

lemma format_row_get:
  "dict_get (format_row filename d cols) c =
     (if c = ''Document Name'' then Some (PStr filename)
      else if c \<in> set cols then Some (dict_get_default d c (PStr []))
      else None)"
proof -
  show ?thesis
    by (simp add: format_row_def dict_get_fold_export) (simp add: dict_get_def)
qed

lemma failure_stored:
  "stored_result (True, r, m) = r"
  "c \<noteq> ''Error'' \<Longrightarrow> dict_get_default (stored_result (False, r, m)) c (PStr []) = PStr []"
  by (simp_all add: stored_result_def dict_get_default_def dict_get_def)

text \<open>
  C5, as the code has it. Row \<open>i\<close> of the export, built from the stored result of
  outcome \<open>i\<close> and filename \<open>i\<close>: the identity field \<open>Document Name\<close> is the
  filename. For a success, every other declared field is the record's value for that
  name, or the empty string when the record has no such key. For a failure, every other
  declared field whose name is not \<open>Error\<close> is the empty string (the failure is stored
  as the one-key record \<open>Error\<close>, which the export reads like any other record).
\<close>

theorem format_results_for_export_rows:
  assumes "length outcomes = length fns" and "i < length outcomes"
  shows "let row = format_results_for_export (map stored_result outcomes) fns cols ! i
         in dict_get row ''Document Name'' = Some (PStr (fns ! i))
          \<and> (\<forall>c \<in> set cols. c \<noteq> ''Document Name'' \<longrightarrow>
               (case outcomes ! i of
                  (success, result_dict, error_msg) \<Rightarrow>
                    if success
                    then dict_get row c = Some (dict_get_default result_dict c (PStr []))
                    else c \<noteq> ''Error'' \<longrightarrow> dict_get row c = Some (PStr [])))"
proof -
  have row: "format_results_for_export (map stored_result outcomes) fns cols ! i
      = format_row (fns ! i) (stored_result (outcomes ! i)) cols"
    using assms by (simp add: format_results_for_export_def)
  obtain success result_dict error_msg where o: "outcomes ! i = (success, result_dict, error_msg)"
    by (cases "outcomes ! i")
  show ?thesis
    unfolding Let_def row o
    by (auto simp: format_row_get failure_stored)
qed


theorem format_results_for_export_rows_witness:
  "dict_get (format_results_for_export
       (map stored_result [(True, [(''Summary'', PStr ''ok'')], None),
                           (False, [], Some ''Error analyzing b.pdf: boom'')])
       [''a.pdf'', ''b.pdf''] [''Document Name'', ''Summary'', ''Parties''] ! 0) ''Document Name''
     = Some (PStr ''a.pdf'')
   \<and> dict_get (format_results_for_export
       (map stored_result [(True, [(''Summary'', PStr ''ok'')], None),
                           (False, [], Some ''Error analyzing b.pdf: boom'')])
       [''a.pdf'', ''b.pdf''] [''Document Name'', ''Summary'', ''Parties''] ! 0) ''Summary''
     = Some (PStr ''ok'')
   \<and> dict_get (format_results_for_export
       (map stored_result [(True, [(''Summary'', PStr ''ok'')], None),
                           (False, [], Some ''Error analyzing b.pdf: boom'')])
       [''a.pdf'', ''b.pdf''] [''Document Name'', ''Summary'', ''Parties''] ! 0) ''Parties''
     = Some (PStr [])
   \<and> dict_get (format_results_for_export
       (map stored_result [(True, [(''Summary'', PStr ''ok'')], None),
                           (False, [], Some ''Error analyzing b.pdf: boom'')])
       [''a.pdf'', ''b.pdf''] [''Document Name'', ''Summary'', ''Parties''] ! 1) ''Document Name''
     = Some (PStr ''b.pdf'')
   \<and> dict_get (format_results_for_export
       (map stored_result [(True, [(''Summary'', PStr ''ok'')], None),
                           (False, [], Some ''Error analyzing b.pdf: boom'')])
       [''a.pdf'', ''b.pdf''] [''Document Name'', ''Summary'', ''Parties''] ! 1) ''Summary''
     = Some (PStr [])"
proof -
  let ?os = "[(True, [(''Summary'', PStr ''ok'')], None),
              (False, [], Some ''Error analyzing b.pdf: boom'')]"
  let ?fns = "[''a.pdf'', ''b.pdf'']"
  let ?cols = "[''Document Name'', ''Summary'', ''Parties'']"
  have len: "length ?os = length ?fns" by simp
  have i0: "0 < length ?os" and i1: "1 < length ?os" by simp_all
  note r0 = format_results_for_export_rows [OF len i0, of ?cols, unfolded Let_def]
  note r1 = format_results_for_export_rows [OF len i1, of ?cols, unfolded Let_def]
  from r0 have a: "dict_get (format_results_for_export (map stored_result ?os) ?fns ?cols ! 0)
      ''Document Name'' = Some (PStr ''a.pdf'')"
    by simp
  from r0 have b: "dict_get (format_results_for_export (map stored_result ?os) ?fns ?cols ! 0)
      ''Summary'' = Some (PStr ''ok'')"
    by (simp add: dict_get_default_def dict_get_def)
  from r0 have c: "dict_get (format_results_for_export (map stored_result ?os) ?fns ?cols ! 0)
      ''Parties'' = Some (PStr [])"
    by (simp add: dict_get_default_def dict_get_def)
  from r1 have d: "dict_get (format_results_for_export (map stored_result ?os) ?fns ?cols ! 1)
      ''Document Name'' = Some (PStr ''b.pdf'')"
    by simp
  from r1 have e: "dict_get (format_results_for_export (map stored_result ?os) ?fns ?cols ! 1)
      ''Summary'' = Some (PStr [])"
    by simp
  from a b c d e show ?thesis by blast
qed

text \<open>
  C5, as the claim words it, fails for a declared field named \<open>Error\<close>: the export row
  of a failed document carries the failure reason in that field.
\<close>

theorem failure_row_error_column_counterexample:
  "dict_get (format_results_for_export
       (map stored_result [(False, [], Some ''Error analyzing b.pdf: boom'')])
       [''b.pdf''] [''Document Name'', ''Error''] ! 0) ''Error''
     = Some (PStr ''Error analyzing b.pdf: boom'')
   \<and> Some (PStr ''Error analyzing b.pdf: boom'') \<noteq> Some (PStr [])"
  by (simp add: format_results_for_export_def format_row_def add_column_def stored_result_def
        optional_str_def dict_get_default_def dict_get_def)

section \<open>Retry and back-off: results\<close>

lemma log_calls_simps:
  "log_call c w = log_calls [c] w"
  "log_calls cs (log_calls ds w) = log_calls (ds @ cs) w"
  by (simp_all add: log_call_def log_calls_def)

lemma retry_loop_success:
  assumes "a \<le> k" and "k \<le> m"
    and "\<And>i. a \<le> i \<Longrightarrow> i < k \<Longrightarrow> \<exists>x. extract_text (generate e i) = Inl x"
    and "extract_text (generate e k) = Inr t"
  shows "retry_loop e m h p [a..m] w =
           (Inr (Some t),
            log_calls (concat (map (\<lambda>i. [Generate h p, Sleep ((i + 1) * 2)]) [a..k - 1])
                       @ [Generate h p]) w)"
  using assms
proof (induction "nat (k - a)" arbitrary: a w)
  case 0
  then have "a = k" by simp
  with 0 show ?case
    by (simp add: upto_rec1 [of k m] log_calls_simps)
next
  case (Suc d)
  then have lt: "a < k" and am: "a \<le> m" by simp_all
  from Suc.prems(3) [of a] lt obtain x where x: "extract_text (generate e a) = Inl x"
    by auto
  have ih: "retry_loop e m h p [a + 1..m] w' =
           (Inr (Some t),
            log_calls (concat (map (\<lambda>i. [Generate h p, Sleep ((i + 1) * 2)]) [a + 1..k - 1])
                       @ [Generate h p]) w')" for w'
    using Suc.hyps(2) Suc.prems lt by (intro Suc.hyps(1)) auto
  have up: "[a..k - 1] = a # [a + 1..k - 1]"
    using lt by (simp add: upto_rec1)
  show ?case
    using lt Suc.prems(2) x
    by (simp add: upto_rec1 [of a m] am ih up log_calls_simps)
qed

lemma retry_loop_exhausted:
  assumes "a \<le> m"
    and "\<And>i. a \<le> i \<Longrightarrow> i < m \<Longrightarrow> \<exists>x. extract_text (generate e i) = Inl x"
    and "extract_text (generate e m) = Inl x"
  shows "retry_loop e m h p [a..m] w =
           (Inl x,
            log_calls (concat (map (\<lambda>i. [Generate h p, Sleep ((i + 1) * 2)]) [a..m - 1])
                       @ [Generate h p]) w)"
  using assms
proof (induction "nat (m - a)" arbitrary: a w)
  case 0
  then have "a = m" by simp
  with 0 show ?case
    by (simp add: upto_rec1 [of m m] log_calls_simps)
next
  case (Suc d)
  then have lt: "a < m" by simp
  from Suc.prems(2) [of a] lt obtain y where y: "extract_text (generate e a) = Inl y"
    by auto
  have ih: "retry_loop e m h p [a + 1..m] w' =
           (Inl x,
            log_calls (concat (map (\<lambda>i. [Generate h p, Sleep ((i + 1) * 2)]) [a + 1..m - 1])
                       @ [Generate h p]) w')" for w'
    using Suc.hyps(2) Suc.prems lt by (intro Suc.hyps(1)) auto
  have up: "[a..m - 1] = a # [a + 1..m - 1]"
    using lt by (simp add: upto_rec1)
  show ?case
    using lt y
    by (simp add: upto_rec1 [of a m] ih up log_calls_simps)
qed


lemma retry_loop_calls:
  "\<exists>new. calls (snd (retry_loop e m h p as w)) = calls w @ new
         \<and> length (filter (\<lambda>c. c = Generate h p) new) \<le> length as"
proof (induction as arbitrary: w)
  case Nil
  show ?case by simp
next
  case (Cons a as)
  show ?case
  proof (cases "extract_text (generate e a)")
    case (Inr t)
    then show ?thesis by (simp add: log_call_def)
  next
    case (Inl x)
    show ?thesis
    proof (cases "a < m")
      case False
      with Inl show ?thesis by (simp add: log_call_def)
    next
      case True
      let ?w = "log_call (Sleep ((a + 1) * 2)) (log_call (Generate h p) w)"
      from Cons [of ?w] obtain new where
        n: "calls (snd (retry_loop e m h p as ?w)) = calls ?w @ new"
        "length (filter (\<lambda>c. c = Generate h p) new) \<le> length as"
        by blast
      have "calls (snd (retry_loop e m h p (a # as) w))
          = calls w @ (Generate h p # Sleep ((a + 1) * 2) # new)"
        using Inl True n(1) by (simp add: log_call_def)
      moreover have "length (filter (\<lambda>c. c = Generate h p) (Generate h p # Sleep ((a + 1) * 2) # new))
          \<le> length (a # as)"
        using n(2) by simp
      ultimately show ?thesis by blast
    qed
  qed
qed

lemma attempts_bounded:
  "length (filter (\<lambda>c. c = Generate h p)
     (drop (length (calls w)) (calls (snd (generate_content_with_retry e n h p w)))))
   \<le> nat (n + 1)"
proof -
  obtain new where "calls (snd (retry_loop e n h p [0..n] w)) = calls w @ new"
    and "length (filter (\<lambda>c. c = Generate h p) new) \<le> length [0..n]"
    using retry_loop_calls by blast
  then show ?thesis
    by (simp add: generate_content_with_retry_def)
qed

lemma analyze_pdf_generation_failure:
  assumes "write_temp e = Temp_written tp" and "upload e = Inr h"
    and "\<And>w. fst (generate_content_with_retry e n h p w) = Inl x"
  shows "fst (analyze_pdf e n filename p w) = failure filename x"
proof -
  let ?w2 = "snd (upload_file e tp (snd (write_temp_pdf e w)))"
  obtain w3 where "generate_content_with_retry e n h p ?w2 = (Inl x, w3)"
    using assms(3) [of ?w2] by (cases "generate_content_with_retry e n h p ?w2") simp
  then show ?thesis
    using assms(1,2)
    by (simp add: analyze_pdf_def write_temp_pdf_def upload_file_def Let_def)
qed

text \<open>
  C4. With \<open>max_retries = n\<close>: (1) whatever the service does, at most \<open>n + 1\<close>
  generation calls are made; (2) when attempts \<open>0, ..., k - 1\<close> fail and attempt
  \<open>k \<le> n\<close> answers, the calls made are exactly attempt \<open>i\<close> followed by a sleep of
  \<open>(i + 1) * 2\<close> for each failed \<open>i\<close>, then attempt \<open>k\<close> (no sleep before the first
  attempt, none after the last), and the answer is returned; (3) when all of the attempts
  \<open>0, ..., n\<close> fail, the calls are the same with \<open>k = n\<close>, the exception of attempt
  \<open>n\<close> is the one raised, and the document's outcome is the failure whose reason is
  \<open>Error analyzing <filename>: <that exception>\<close>.
\<close>

theorem generate_content_with_retry_backoff:
  "length (filter (\<lambda>c. c = Generate h p)
      (drop (length (calls w)) (calls (snd (generate_content_with_retry e n h p w)))))
     \<le> nat (n + 1)
   \<and> (0 \<le> k \<and> k \<le> n
        \<and> (\<forall>i \<in> {0..<k}. \<exists>x. extract_text (generate e i) = Inl x)
        \<and> extract_text (generate e k) = Inr t
      \<longrightarrow> generate_content_with_retry e n h p w =
            (Inr (Some t),
             log_calls (concat (map (\<lambda>i. [Generate h p, Sleep ((i + 1) * 2)]) [0..k - 1])
                        @ [Generate h p]) w))
   \<and> (0 \<le> n
        \<and> (\<forall>i \<in> {0..<n}. \<exists>x. extract_text (generate e i) = Inl x)
        \<and> extract_text (generate e n) = Inl x
      \<longrightarrow> generate_content_with_retry e n h p w =
            (Inl x,
             log_calls (concat (map (\<lambda>i. [Generate h p, Sleep ((i + 1) * 2)]) [0..n - 1])
                        @ [Generate h p]) w)
          \<and> (write_temp e = Temp_written tp \<and> upload e = Inr h
               \<longrightarrow> fst (analyze_pdf e n filename p w) = failure filename x))"
proof (intro conjI impI)
  show "length (filter (\<lambda>c. c = Generate h p)
      (drop (length (calls w)) (calls (snd (generate_content_with_retry e n h p w)))))
     \<le> nat (n + 1)"
    by (rule attempts_bounded)
next
  assume a: "0 \<le> k \<and> k \<le> n
        \<and> (\<forall>i \<in> {0..<k}. \<exists>x. extract_text (generate e i) = Inl x)
        \<and> extract_text (generate e k) = Inr t"
  then show "generate_content_with_retry e n h p w =
            (Inr (Some t),
             log_calls (concat (map (\<lambda>i. [Generate h p, Sleep ((i + 1) * 2)]) [0..k - 1])
                        @ [Generate h p]) w)"
    unfolding generate_content_with_retry_def
    by (intro retry_loop_success) auto
next
  assume a: "0 \<le> n
        \<and> (\<forall>i \<in> {0..<n}. \<exists>x. extract_text (generate e i) = Inl x)
        \<and> extract_text (generate e n) = Inl x"
  then have r: "generate_content_with_retry e n h p w' =
            (Inl x,
             log_calls (concat (map (\<lambda>i. [Generate h p, Sleep ((i + 1) * 2)]) [0..n - 1])
                        @ [Generate h p]) w')" for w'
    unfolding generate_content_with_retry_def
    by (intro retry_loop_exhausted) auto
  then show "generate_content_with_retry e n h p w =
            (Inl x,
             log_calls (concat (map (\<lambda>i. [Generate h p, Sleep ((i + 1) * 2)]) [0..n - 1])
                        @ [Generate h p]) w)" .
  assume "write_temp e = Temp_written tp \<and> upload e = Inr h"
  then show "fst (analyze_pdf e n filename p w) = failure filename x"
    using r by (intro analyze_pdf_generation_failure [of e tp h n p x]) simp_all
qed


theorem generate_content_with_retry_backoff_witness:
  "generate_content_with_retry env_503 2 ''files/abc'' ''p'' \<lparr>local_files = [], remote_files = [], calls = []\<rparr>
     = (Inr (Some ''{}''),
        \<lparr>local_files = [], remote_files = [],
           calls = [Generate ''files/abc'' ''p'', Sleep 2, Generate ''files/abc'' ''p'', Sleep 4,
                    Generate ''files/abc'' ''p'']\<rparr>)
   \<and> generate_content_with_retry env_down 2 ''files/abc'' ''p'' \<lparr>local_files = [], remote_files = [], calls = []\<rparr>
     = (Inl (Exception ''down 2''),
        \<lparr>local_files = [], remote_files = [],
           calls = [Generate ''files/abc'' ''p'', Sleep 2, Generate ''files/abc'' ''p'', Sleep 4,
                    Generate ''files/abc'' ''p'']\<rparr>)
   \<and> fst (analyze_pdf env_down 2 ''a.pdf'' ''p'' \<lparr>local_files = [], remote_files = [], calls = []\<rparr>)
     = (False, [], Some ''Error analyzing a.pdf: down 2'')"
proof -
  let ?w = "\<lparr>local_files = [], remote_files = [], calls = []\<rparr>"
  have s: "show_int 2 = ''2''" by code_simp
  have up: "[0..1::int] = [0, 1]" by code_simp
  have f1: "\<forall>i \<in> {0..<2::int}. \<exists>x. extract_text (generate env_503 i) = Inl x"
    by (simp add: env_503_def extract_text_def)
  have f2: "\<forall>i \<in> {0..<2::int}. \<exists>x. extract_text (generate env_down i) = Inl x"
    by (simp add: env_down_def extract_text_def)
  have g1: "extract_text (generate env_503 2) = Inr ''{}''"
    by (simp add: env_503_def extract_text_def)
  have g2: "extract_text (generate env_down 2) = Inl (Exception ''down 2'')"
    by (simp add: env_down_def extract_text_def s)
  have e: "write_temp env_down = Temp_written ''/tmp/t1.pdf''" "upload env_down = Inr ''files/abc''"
    by (simp_all add: env_down_def)
  note a = generate_content_with_retry_backoff
    [of "''files/abc''" "''p''" ?w env_503 2 2 "''{}''" "Exception ''x''" "''/tmp/t1.pdf''" "''a.pdf''"]
  note b = generate_content_with_retry_backoff
    [of "''files/abc''" "''p''" ?w env_down 2 2 "''{}''" "Exception ''down 2''" "''/tmp/t1.pdf''" "''a.pdf''"]
  from a f1 g1 have 1: "generate_content_with_retry env_503 2 ''files/abc'' ''p'' ?w
     = (Inr (Some ''{}''),
        \<lparr>local_files = [], remote_files = [],
           calls = [Generate ''files/abc'' ''p'', Sleep 2, Generate ''files/abc'' ''p'', Sleep 4,
                    Generate ''files/abc'' ''p'']\<rparr>)"
    by (simp add: up log_calls_def)
  from b f2 g2 e have 2: "generate_content_with_retry env_down 2 ''files/abc'' ''p'' ?w
     = (Inl (Exception ''down 2''),
        \<lparr>local_files = [], remote_files = [],
           calls = [Generate ''files/abc'' ''p'', Sleep 2, Generate ''files/abc'' ''p'', Sleep 4,
                    Generate ''files/abc'' ''p'']\<rparr>)"
    and 3: "fst (analyze_pdf env_down 2 ''a.pdf'' ''p'' ?w) = failure ''a.pdf'' (Exception ''down 2'')"
    by (simp_all add: up log_calls_def)
  from 1 2 3 show ?thesis by (simp add: failure_def)
qed

section \<open>Cleanup on every path: results\<close>

lemma retry_loop_frame:
  "\<exists>new. snd (retry_loop e m h p as w) = log_calls new w \<and> filter is_release new = []"
proof (induction as arbitrary: w)
  case Nil
  have "snd (retry_loop e m h p [] w) = log_calls [] w"
    by (simp add: log_calls_def)
  then show ?case by fastforce
next
  case (Cons a as)
  show ?case
  proof (cases "extract_text (generate e a)")
    case (Inr t)
    then have "snd (retry_loop e m h p (a # as) w) = log_calls [Generate h p] w"
      by (simp add: log_calls_simps)
    moreover have "filter is_release [Generate h p] = []"
      by (simp add: is_release_def)
    ultimately show ?thesis by blast
  next
    case (Inl x)
    show ?thesis
    proof (cases "a < m")
      case False
      with Inl have "snd (retry_loop e m h p (a # as) w) = log_calls [Generate h p] w"
        by (simp add: log_calls_simps)
      moreover have "filter is_release [Generate h p] = []"
        by (simp add: is_release_def)
      ultimately show ?thesis by blast
    next
      case True
      let ?w = "log_calls [Generate h p, Sleep ((a + 1) * 2)] w"
      from Cons [of ?w] obtain new where
        n: "snd (retry_loop e m h p as ?w) = log_calls new ?w" "filter is_release new = []"
        by blast
      have "snd (retry_loop e m h p (a # as) w)
          = log_calls ([Generate h p, Sleep ((a + 1) * 2)] @ new) w"
        using Inl True n(1) by (simp add: log_calls_simps)
      moreover have "filter is_release ([Generate h p, Sleep ((a + 1) * 2)] @ new) = []"
        using n(2) by (simp add: is_release_def)
      ultimately show ?thesis by blast
    qed
  qed
qed

lemma retry_loop_result:
  "fst (retry_loop (e\<lparr>delete_ok := d, remove_ok := r\<rparr>) m h p as w) = fst (retry_loop e m h p as w')"
  by (induction as arbitrary: w w') (auto simp: Let_def split: sum.splits)

lemma generate_frame:
  "\<exists>new. snd (generate_content_with_retry e m h p w) = log_calls new w \<and> filter is_release new = []"
  unfolding generate_content_with_retry_def by (rule retry_loop_frame)

lemma generate_result:
  "fst (generate_content_with_retry (e\<lparr>delete_ok := d, remove_ok := r\<rparr>) m h p w)
     = fst (generate_content_with_retry e m h p w')"
  unfolding generate_content_with_retry_def by (rule retry_loop_result)


lemma cleanup_both:
  assumes "tp \<in> set (local_files w)"
  shows "calls (cleanup e (Some h) (Some tp) w) = calls w @ [Delete h, Remove tp]"
    and "remote_files (cleanup e (Some h) (Some tp) w)
           = (if delete_ok e then remove1 h (remote_files w) else remote_files w)"
    and "local_files (cleanup e (Some h) (Some tp) w)
           = (if remove_ok e then remove1 tp (local_files w) else local_files w)"
  using assms
  by (simp_all add: cleanup_def delete_remote_def remove_local_def log_call_def Let_def)

lemma cleanup_local:
  assumes "tp \<in> set (local_files w)"
  shows "calls (cleanup e None (Some tp) w) = calls w @ [Remove tp]"
    and "remote_files (cleanup e None (Some tp) w) = remote_files w"
    and "local_files (cleanup e None (Some tp) w)
           = (if remove_ok e then remove1 tp (local_files w) else local_files w)"
  using assms
  by (simp_all add: cleanup_def remove_local_def log_call_def Let_def)

lemma analyze_pdf_outcome_independent:
  "fst (analyze_pdf (e\<lparr>delete_ok := d, remove_ok := r\<rparr>) n filename prompt w)
     = fst (analyze_pdf e n filename prompt w')"
proof -
  have g: "fst (generate_content_with_retry (e\<lparr>delete_ok := d, remove_ok := r\<rparr>) n h prompt w1)
     = fst (generate_content_with_retry e n h prompt w2)" for h w1 w2
    by (rule generate_result)
  show ?thesis
    unfolding analyze_pdf_def write_temp_pdf_def upload_file_def Let_def
    using g
    by (auto split: temp_result.splits sum.splits prod.splits option.splits)
      (metis fst_conv sum.inject sum.distinct option.inject option.distinct)+
qed


lemma analyze_pdf_upload_failed:
  assumes "write_temp e = Temp_written tp" and "upload e = Inl x"
  shows "\<exists>w2. snd (analyze_pdf e n filename prompt w) = cleanup e None (Some tp) w2
           \<and> calls w2 = calls w @ [Write_temp, Upload tp]
           \<and> local_files w2 = tp # local_files w
           \<and> remote_files w2 = remote_files w"
proof -
  define w2 where "w2 = snd (upload_file e tp (snd (write_temp_pdf e w)))"
  have wt: "write_temp_pdf e w = (Inr tp, snd (write_temp_pdf e w))"
    using assms by (simp add: write_temp_pdf_def Let_def)
  have up: "upload_file e tp (snd (write_temp_pdf e w)) = (Inl x, w2)"
    using assms by (simp add: w2_def upload_file_def Let_def)
  have w2: "calls w2 = calls w @ [Write_temp, Upload tp]"
    "local_files w2 = tp # local_files w" "remote_files w2 = remote_files w"
    using assms
    by (simp_all add: w2_def write_temp_pdf_def upload_file_def Let_def log_call_def)
  have "snd (analyze_pdf e n filename prompt w) = cleanup e None (Some tp) w2"
    unfolding analyze_pdf_def
    by (subst wt, simp only: prod.case sum.case up) simp
  with w2 show ?thesis by blast
qed

lemma analyze_pdf_uploaded:
  assumes "write_temp e = Temp_written tp" and "upload e = Inr h"
  shows "\<exists>mid w3. filter is_release mid = []
           \<and> snd (analyze_pdf e n filename prompt w) = cleanup e (Some h) (Some tp) w3
           \<and> calls w3 = calls w @ [Write_temp, Upload tp] @ mid
           \<and> local_files w3 = tp # local_files w
           \<and> remote_files w3 = h # remote_files w"
proof -
  define w2 where "w2 = snd (upload_file e tp (snd (write_temp_pdf e w)))"
  have wt: "write_temp_pdf e w = (Inr tp, snd (write_temp_pdf e w))"
    using assms by (simp add: write_temp_pdf_def Let_def)
  have up: "upload_file e tp (snd (write_temp_pdf e w)) = (Inr h, w2)"
    using assms by (simp add: w2_def upload_file_def Let_def)
  have w2: "calls w2 = calls w @ [Write_temp, Upload tp]"
    "local_files w2 = tp # local_files w" "remote_files w2 = h # remote_files w"
    using assms
    by (simp_all add: w2_def write_temp_pdf_def upload_file_def Let_def log_call_def)
  obtain new where new: "snd (generate_content_with_retry e n h prompt w2) = log_calls new w2"
    "filter is_release new = []"
    using generate_frame by blast
  obtain res w3 where g: "generate_content_with_retry e n h prompt w2 = (res, w3)"
    by (cases "generate_content_with_retry e n h prompt w2")
  with new(1) have w3: "w3 = log_calls new w2" by simp
  have a: "snd (analyze_pdf e n filename prompt w)
      = cleanup e (Some h) (Some tp)
          (case res of Inr (Some t) \<Rightarrow> log_call Pace w3 | _ \<Rightarrow> w3)"
    unfolding analyze_pdf_def
    by (subst wt, simp only: prod.case sum.case up g)
       (simp split: sum.splits option.splits)
  show ?thesis
  proof (cases "\<exists>t. res = Inr (Some t)")
    case True
    let ?w = "log_call Pace w3"
    from True a have "snd (analyze_pdf e n filename prompt w) = cleanup e (Some h) (Some tp) ?w"
      by auto
    moreover have "calls ?w = calls w @ [Write_temp, Upload tp] @ (new @ [Pace])"
      "local_files ?w = tp # local_files w" "remote_files ?w = h # remote_files w"
      using w2 by (simp_all add: w3 log_calls_def log_call_def)
    moreover have "filter is_release (new @ [Pace]) = []"
      using new(2) by (simp add: is_release_def)
    ultimately show ?thesis by blast
  next
    case False
    with a have "snd (analyze_pdf e n filename prompt w) = cleanup e (Some h) (Some tp) w3"
      by (auto split: sum.splits option.splits)
    moreover have "calls w3 = calls w @ [Write_temp, Upload tp] @ new"
      "local_files w3 = tp # local_files w" "remote_files w3 = h # remote_files w"
      using w2 by (simp_all add: w3 log_calls_def)
    ultimately show ?thesis using new(2) by blast
  qed
qed

text \<open>
  C1. Once the document is staged (the four paths of the claim all start there), whatever
  the upload and the generation attempts do: (1) the calls the run adds to the log end
  with the release calls, and contain no other release call: the deletion of the handle
  the upload returned followed by the removal of the staged file, or the removal alone when
  the upload failed and there is no handle, so each resource obtained is released by
  exactly one call, made before the run returns; (2) the outcome (success flag, record,
  reason) is the same whether or not the release calls raise; (3) when the release calls
  succeed, the staged files and remote files that exist after the run are those that
  existed before it.
\<close>

theorem analyze_pdf_releases_once:
  assumes "write_temp e = Temp_written tp"
  shows "(\<exists>pre. filter is_release pre = []
            \<and> calls (snd (analyze_pdf e n filename prompt w))
              = calls w @ pre
                  @ (case upload e of Inr h \<Rightarrow> [Delete h, Remove tp] | Inl x \<Rightarrow> [Remove tp]))
       \<and> fst (analyze_pdf (e\<lparr>delete_ok := d, remove_ok := r\<rparr>) n filename prompt w)
           = fst (analyze_pdf e n filename prompt w)
       \<and> (delete_ok e \<and> remove_ok e \<longrightarrow>
            local_files (snd (analyze_pdf e n filename prompt w)) = local_files w
            \<and> remote_files (snd (analyze_pdf e n filename prompt w)) = remote_files w)"
proof (cases "upload e")
  case (Inl x)
  from analyze_pdf_upload_failed [OF assms Inl, of n filename prompt w] obtain w2 where
    s: "snd (analyze_pdf e n filename prompt w) = cleanup e None (Some tp) w2"
    and w2: "calls w2 = calls w @ [Write_temp, Upload tp]"
      "local_files w2 = tp # local_files w" "remote_files w2 = remote_files w"
    by blast
  have m: "tp \<in> set (local_files w2)" by (simp add: w2)
  note c = cleanup_local [OF m, of e]
  have "filter is_release [Write_temp, Upload tp] = []
      \<and> calls (snd (analyze_pdf e n filename prompt w)) = calls w @ [Write_temp, Upload tp] @ [Remove tp]"
    by (simp add: s c w2 is_release_def)
  then have 1: "\<exists>pre. filter is_release pre = []
            \<and> calls (snd (analyze_pdf e n filename prompt w))
              = calls w @ pre
                  @ (case upload e of Inr h \<Rightarrow> [Delete h, Remove tp] | Inl x \<Rightarrow> [Remove tp])"
    unfolding Inl sum.case by blast
  have 3: "delete_ok e \<and> remove_ok e \<longrightarrow>
            local_files (snd (analyze_pdf e n filename prompt w)) = local_files w
            \<and> remote_files (snd (analyze_pdf e n filename prompt w)) = remote_files w"
    by (simp add: s c w2)
  from 1 3 analyze_pdf_outcome_independent show ?thesis
    by blast
next
  case (Inr h)
  from analyze_pdf_uploaded [OF assms Inr, of n filename prompt w] obtain mid w3 where
    mid: "filter is_release mid = []"
    and s: "snd (analyze_pdf e n filename prompt w) = cleanup e (Some h) (Some tp) w3"
    and w3: "calls w3 = calls w @ [Write_temp, Upload tp] @ mid"
      "local_files w3 = tp # local_files w" "remote_files w3 = h # remote_files w"
    by blast
  have m: "tp \<in> set (local_files w3)" by (simp add: w3)
  note c = cleanup_both [OF m, of e h]
  have "filter is_release ([Write_temp, Upload tp] @ mid) = []
      \<and> calls (snd (analyze_pdf e n filename prompt w))
          = calls w @ ([Write_temp, Upload tp] @ mid) @ [Delete h, Remove tp]"
    using mid by (simp add: s c w3 is_release_def)
  then have 1: "\<exists>pre. filter is_release pre = []
            \<and> calls (snd (analyze_pdf e n filename prompt w))
              = calls w @ pre
                  @ (case upload e of Inr h \<Rightarrow> [Delete h, Remove tp] | Inl x \<Rightarrow> [Remove tp])"
    unfolding Inr sum.case by blast
  have 3: "delete_ok e \<and> remove_ok e \<longrightarrow>
            local_files (snd (analyze_pdf e n filename prompt w)) = local_files w
            \<and> remote_files (snd (analyze_pdf e n filename prompt w)) = remote_files w"
    by (simp add: s c w3)
  from 1 3 analyze_pdf_outcome_independent show ?thesis
    by blast
qed


text \<open>
  The witness instantiates the theorem on the four paths (success after two retries,
  upload failure, generation failure after exhausted retries, malformed response format);
  \<open>analyze_pdf_four_paths\<close> evaluates the outcome on each.
\<close>

theorem analyze_pdf_releases_once_witness:
  "((\<exists>pre. filter is_release pre = []
        \<and> calls (snd (analyze_pdf env_503 2 ''a.pdf'' ''p'' world0))
            = pre @ [Delete ''files/abc'', Remove ''/tmp/t1.pdf''])
    \<and> fst (analyze_pdf (env_503\<lparr>delete_ok := False, remove_ok := False\<rparr>) 2 ''a.pdf'' ''p'' world0)
        = fst (analyze_pdf env_503 2 ''a.pdf'' ''p'' world0)
    \<and> local_files (snd (analyze_pdf env_503 2 ''a.pdf'' ''p'' world0)) = []
    \<and> remote_files (snd (analyze_pdf env_503 2 ''a.pdf'' ''p'' world0)) = [])
   \<and> ((\<exists>pre. filter is_release pre = []
        \<and> calls (snd (analyze_pdf env_denied 2 ''a.pdf'' ''p'' world0))
            = pre @ [Remove ''/tmp/t1.pdf''])
    \<and> fst (analyze_pdf (env_denied\<lparr>delete_ok := False, remove_ok := False\<rparr>) 2 ''a.pdf'' ''p'' world0)
        = fst (analyze_pdf env_denied 2 ''a.pdf'' ''p'' world0)
    \<and> local_files (snd (analyze_pdf env_denied 2 ''a.pdf'' ''p'' world0)) = []
    \<and> remote_files (snd (analyze_pdf env_denied 2 ''a.pdf'' ''p'' world0)) = [])
   \<and> ((\<exists>pre. filter is_release pre = []
        \<and> calls (snd (analyze_pdf env_down 2 ''a.pdf'' ''p'' world0))
            = pre @ [Delete ''files/abc'', Remove ''/tmp/t1.pdf''])
    \<and> fst (analyze_pdf (env_down\<lparr>delete_ok := False, remove_ok := False\<rparr>) 2 ''a.pdf'' ''p'' world0)
        = fst (analyze_pdf env_down 2 ''a.pdf'' ''p'' world0)
    \<and> local_files (snd (analyze_pdf env_down 2 ''a.pdf'' ''p'' world0)) = []
    \<and> remote_files (snd (analyze_pdf env_down 2 ''a.pdf'' ''p'' world0)) = [])
   \<and> ((\<exists>pre. filter is_release pre = []
        \<and> calls (snd (analyze_pdf env_malformed 2 ''a.pdf'' ''p'' world0))
            = pre @ [Delete ''files/abc'', Remove ''/tmp/t1.pdf''])
    \<and> fst (analyze_pdf (env_malformed\<lparr>delete_ok := False, remove_ok := False\<rparr>) 2 ''a.pdf'' ''p'' world0)
        = fst (analyze_pdf env_malformed 2 ''a.pdf'' ''p'' world0)
    \<and> local_files (snd (analyze_pdf env_malformed 2 ''a.pdf'' ''p'' world0)) = []
    \<and> remote_files (snd (analyze_pdf env_malformed 2 ''a.pdf'' ''p'' world0)) = [])"
proof -
  have a: "write_temp env_503 = Temp_written ''/tmp/t1.pdf''"
    and b: "write_temp env_denied = Temp_written ''/tmp/t1.pdf''"
    and c: "write_temp env_down = Temp_written ''/tmp/t1.pdf''"
    and d: "write_temp env_malformed = Temp_written ''/tmp/t1.pdf''"
    by (simp_all add: env_503_def env_denied_def env_down_def env_malformed_def)
  have u: "upload env_503 = Inr ''files/abc''" "upload env_denied = Inl (Exception ''denied'')"
    "upload env_down = Inr ''files/abc''" "upload env_malformed = Inr ''files/abc''"
    by (simp_all add: env_503_def env_denied_def env_down_def env_malformed_def)
  have k: "delete_ok env_503" "remove_ok env_503" "delete_ok env_denied" "remove_ok env_denied"
    "delete_ok env_down" "remove_ok env_down" "delete_ok env_malformed" "remove_ok env_malformed"
    by (simp_all add: env_503_def env_denied_def env_down_def env_malformed_def)
  have w: "calls world0 = []" "local_files world0 = []" "remote_files world0 = []"
    by (simp_all add: world0_def)
  note t = analyze_pdf_releases_once [where n = 2 and filename = "''a.pdf''" and prompt = "''p''"
      and w = world0 and d = False and r = False]
  from t [OF a] have 1: "(\<exists>pre. filter is_release pre = []
        \<and> calls (snd (analyze_pdf env_503 2 ''a.pdf'' ''p'' world0))
            = pre @ [Delete ''files/abc'', Remove ''/tmp/t1.pdf''])
    \<and> fst (analyze_pdf (env_503\<lparr>delete_ok := False, remove_ok := False\<rparr>) 2 ''a.pdf'' ''p'' world0)
        = fst (analyze_pdf env_503 2 ''a.pdf'' ''p'' world0)
    \<and> local_files (snd (analyze_pdf env_503 2 ''a.pdf'' ''p'' world0)) = []
    \<and> remote_files (snd (analyze_pdf env_503 2 ''a.pdf'' ''p'' world0)) = []"
    by (simp add: u k w)
  from t [OF b] have 2: "(\<exists>pre. filter is_release pre = []
        \<and> calls (snd (analyze_pdf env_denied 2 ''a.pdf'' ''p'' world0))
            = pre @ [Remove ''/tmp/t1.pdf''])
    \<and> fst (analyze_pdf (env_denied\<lparr>delete_ok := False, remove_ok := False\<rparr>) 2 ''a.pdf'' ''p'' world0)
        = fst (analyze_pdf env_denied 2 ''a.pdf'' ''p'' world0)
    \<and> local_files (snd (analyze_pdf env_denied 2 ''a.pdf'' ''p'' world0)) = []
    \<and> remote_files (snd (analyze_pdf env_denied 2 ''a.pdf'' ''p'' world0)) = []"
    by (simp add: u k w)
  from t [OF c] have 3: "(\<exists>pre. filter is_release pre = []
        \<and> calls (snd (analyze_pdf env_down 2 ''a.pdf'' ''p'' world0))
            = pre @ [Delete ''files/abc'', Remove ''/tmp/t1.pdf''])
    \<and> fst (analyze_pdf (env_down\<lparr>delete_ok := False, remove_ok := False\<rparr>) 2 ''a.pdf'' ''p'' world0)
        = fst (analyze_pdf env_down 2 ''a.pdf'' ''p'' world0)
    \<and> local_files (snd (analyze_pdf env_down 2 ''a.pdf'' ''p'' world0)) = []
    \<and> remote_files (snd (analyze_pdf env_down 2 ''a.pdf'' ''p'' world0)) = []"
    by (simp add: u k w)
  from t [OF d] have 4: "(\<exists>pre. filter is_release pre = []
        \<and> calls (snd (analyze_pdf env_malformed 2 ''a.pdf'' ''p'' world0))
            = pre @ [Delete ''files/abc'', Remove ''/tmp/t1.pdf''])
    \<and> fst (analyze_pdf (env_malformed\<lparr>delete_ok := False, remove_ok := False\<rparr>) 2 ''a.pdf'' ''p'' world0)
        = fst (analyze_pdf env_malformed 2 ''a.pdf'' ''p'' world0)
    \<and> local_files (snd (analyze_pdf env_malformed 2 ''a.pdf'' ''p'' world0)) = []
    \<and> remote_files (snd (analyze_pdf env_malformed 2 ''a.pdf'' ''p'' world0)) = []"
    by (simp add: u k w)
  from 1 2 3 4 show ?thesis by blast
qed

lemma analyze_pdf_four_paths:
  "fst (analyze_pdf env_503 2 ''a.pdf'' ''p'' world0) = (True, [], None)"
  "fst (analyze_pdf env_denied 2 ''a.pdf'' ''p'' world0) = (False, [], Some ''Error analyzing a.pdf: denied'')"
  "fst (analyze_pdf env_down 2 ''a.pdf'' ''p'' world0) = (False, [], Some ''Error analyzing a.pdf: down 2'')"
  "fst (analyze_pdf env_malformed 2 ''a.pdf'' ''p'' world0)
     = (False, [], Some ''Error analyzing a.pdf: Unexpected response format from Gemini'')"
  by code_simp+

section \<open>The batch run: results\<close>

lemma analyze_pdf_outcome_any_world:
  "fst (analyze_pdf e n filename prompt w) = fst (analyze_pdf e n filename prompt w')"
  using analyze_pdf_outcome_independent [where e = e and d = "delete_ok e" and r = "remove_ok e"
      and n = n and filename = filename and prompt = prompt and w = w and w' = w']
  by simp

lemma analyze_loop_session:
  "fst (analyze_loop envs mr fp idx files (s, w)) =
     s\<lparr>filenames := filenames s @ map (\<lambda>(file_path, filename, pdf_bytes). filename) files,
       results := results s @
         map (\<lambda>(i, (file_path, filename, pdf_bytes)).
                stored_result (fst (analyze_pdf (envs i) mr filename fp w0)))
             (enumerate idx files),
       processing_status := processing_status s @
         map (\<lambda>(i, (file_path, filename, pdf_bytes)).
                stored_status (fst (analyze_pdf (envs i) mr filename fp w0)))
             (enumerate idx files)\<rparr>"
proof (induction files arbitrary: idx s w)
  case Nil
  show ?case by simp
next
  case (Cons f files)
  obtain file_path filename pdf_bytes where f: "f = (file_path, filename, pdf_bytes)"
    by (cases f)
  obtain out w' where a: "analyze_pdf (envs idx) mr filename fp w = (out, w')"
    by (cases "analyze_pdf (envs idx) mr filename fp w")
  then have out: "out = fst (analyze_pdf (envs idx) mr filename fp w0)"
    using analyze_pdf_outcome_any_world [of "envs idx" mr filename fp w w0] by simp
  show ?case
    unfolding f
    by (simp add: a Cons.IH [of "Suc idx"] store_outcome_def out)
qed

text \<open>
  C2. For every list of documents and whatever each document meets: the run stores
  exactly one result per document; the stored filenames are the documents' filenames in
  input order; and the result and the status stored at position \<open>idx\<close> are those of the
  outcome of analysing document \<open>idx\<close> in its own environment \<open>envs idx\<close>, which
  does not depend on the state the earlier documents left (\<open>w0\<close> is arbitrary). So
  a failed document takes its own place in the list and the documents after it are
  analysed as they would be alone.
\<close>

theorem analyze_pdfs_one_outcome_per_document:
  "length (results (fst (analyze_pdfs envs mr pdf_files prompt_text cols w))) = length pdf_files
   \<and> filenames (fst (analyze_pdfs envs mr pdf_files prompt_text cols w))
       = map (\<lambda>(file_path, filename, pdf_bytes). filename) pdf_files
   \<and> results (fst (analyze_pdfs envs mr pdf_files prompt_text cols w))
       = map (\<lambda>(idx, (file_path, filename, pdf_bytes)).
                stored_result (fst (analyze_pdf (envs idx) mr filename
                                      (build_analysis_prompt prompt_text cols) w0)))
             (enumerate 0 pdf_files)
   \<and> processing_status (fst (analyze_pdfs envs mr pdf_files prompt_text cols w))
       = map (\<lambda>(idx, (file_path, filename, pdf_bytes)).
                stored_status (fst (analyze_pdf (envs idx) mr filename
                                      (build_analysis_prompt prompt_text cols) w0)))
             (enumerate 0 pdf_files)"
  unfolding analyze_pdfs_def Let_def
  by (simp add: analyze_loop_session [where ?w0.0 = w0])


theorem analyze_pdfs_one_outcome_per_document_witness:
  "results (fst (analyze_pdfs (\<lambda>i. if i = 0 then env_down else env_ok) 2
       [(None, ''b.pdf'', ''%PDF''), (Some ''/in/a.pdf'', ''a.pdf'', ''%PDF'')]
       ''p'' [''Document Name'', ''Summary''] world0))
     = [[(''Error'', PStr ''Error analyzing b.pdf: down 2'')], [(''Summary'', PStr ''ok'')]]
   \<and> filenames (fst (analyze_pdfs (\<lambda>i. if i = 0 then env_down else env_ok) 2
       [(None, ''b.pdf'', ''%PDF''), (Some ''/in/a.pdf'', ''a.pdf'', ''%PDF'')]
       ''p'' [''Document Name'', ''Summary''] world0))
     = [''b.pdf'', ''a.pdf'']
   \<and> processing_status (fst (analyze_pdfs (\<lambda>i. if i = 0 then env_down else env_ok) 2
       [(None, ''b.pdf'', ''%PDF''), (Some ''/in/a.pdf'', ''a.pdf'', ''%PDF'')]
       ''p'' [''Document Name'', ''Summary''] world0))
     = [(Cross_mark, Some ''Error analyzing b.pdf: down 2''), (Check_mark, Some ''Success'')]"
proof -
  let ?p = "build_analysis_prompt ''p'' [''Document Name'', ''Summary'']"
  have b: "fst (analyze_pdf env_down 2 ''b.pdf'' ?p world0)
      = (False, [], Some ''Error analyzing b.pdf: down 2'')"
    by code_simp
  have a: "fst (analyze_pdf env_ok 2 ''a.pdf'' ?p world0) = (True, [(''Summary'', PStr ''ok'')], None)"
    by code_simp
  note t = analyze_pdfs_one_outcome_per_document
    [of "\<lambda>i. if i = 0 then env_down else env_ok" 2
        "[(None, ''b.pdf'', ''%PDF''), (Some ''/in/a.pdf'', ''a.pdf'', ''%PDF'')]"
        "''p''" "[''Document Name'', ''Summary'']" world0 world0]
  show ?thesis
    using t by (simp add: enumerate_eq_zip a b stored_result_def stored_status_def optional_str_def upt_rec)
qed

section \<open>Response extraction: results\<close>




section \<open>Decoding and stripping\<close>





































section \<open>Fence tolerance: results\<close>















section \<open>Round trip: results\<close>























end
